theory Spec2Isabelle
  imports Complex_Main "HOL-Library.Char_ord" "HOL-Library.List_Lexorder" "HOL-Library.Multiset"
begin

section \<open>Strings, paths and the constants of digest.py\<close>

text \<open>
  A Python \<open>str\<close> is modelled as a \<open>string\<close> (the list of its characters; a character
  outside ASCII is the sequence of its UTF-8 bytes, whose lexicographic order is the order of
  the code points). A \<open>bytes\<close> value is a \<open>char list\<close> too. The program is modelled on a
  POSIX system: \<open>os.sep\<close> is the slash.
\<close>

definition os_sep :: char where
  "os_sep = CHR ''/''"

definition NL :: char where
  "NL = CHR 0x0A"

definition NUL :: char where
  "NUL = CHR 0x00"

text \<open>\<open>str.split(sep)\<close> for a one-character separator: always at least one part.\<close>

fun split_on :: "char \<Rightarrow> string \<Rightarrow> string list" where
  "split_on sep [] = [[]]"
| "split_on sep (c # cs) =
     (if c = sep then [] # split_on sep cs
      else (case split_on sep cs of
              [] \<Rightarrow> [[c]]
            | p # ps \<Rightarrow> (c # p) # ps))"

text \<open>\<open>sep.join(parts)\<close>.\<close>

fun join :: "string \<Rightarrow> string list \<Rightarrow> string" where
  "join sep [] = []"
| "join sep [p] = p"
| "join sep (p # q # ps) = p @ sep @ join sep (q # ps)"

text \<open>\<open>str.lower()\<close> on the ASCII letters.\<close>

definition lower_char :: "char \<Rightarrow> char" where
  "lower_char c =
     (if CHR ''A'' \<le> c \<and> c \<le> CHR ''Z'' then char_of (of_char c + (32::nat)) else c)"

definition lower :: "string \<Rightarrow> string" where
  "lower s = map lower_char s"

text \<open>
  \<open>os.path.splitext(p)[1]\<close> (posixpath): the extension starts at the last dot, when that dot
  lies after the last slash and some character between the slash and the dot is not a dot;
  otherwise the extension is empty.
\<close>

definition rfind :: "char \<Rightarrow> string \<Rightarrow> nat option" where
  "rfind c s = (case filter (\<lambda>i. s ! i = c) (rev [0..<length s]) of
                  [] \<Rightarrow> None | i # _ \<Rightarrow> Some i)"

definition splitext_ext :: "string \<Rightarrow> string" where
  "splitext_ext p =
     (case rfind CHR ''.'' p of
        None \<Rightarrow> []
      | Some dotIndex \<Rightarrow>
          (let filenameIndex = (case rfind os_sep p of None \<Rightarrow> 0 | Some sepIndex \<Rightarrow> Suc sepIndex)
           in if filenameIndex \<le> dotIndex
                 \<and> list_ex (\<lambda>i. p ! i \<noteq> CHR ''.'') [filenameIndex..<dotIndex]
              then drop dotIndex p else []))"

definition DEFAULT_BINARY_EXTENSIONS :: "string list" where
  "DEFAULT_BINARY_EXTENSIONS =
     [''.exe'', ''.dll'', ''.so'', ''.a'', ''.o'', ''.obj'',
      ''.jpg'', ''.jpeg'', ''.png'', ''.gif'', ''.bmp'', ''.tiff'', ''.webp'',
      ''.mp3'', ''.wav'', ''.ogg'', ''.flac'',
      ''.mp4'', ''.avi'', ''.mov'', ''.mkv'', ''.webm'',
      ''.pdf'', ''.doc'', ''.docx'', ''.xls'', ''.xlsx'', ''.ppt'', ''.pptx'',
      ''.zip'', ''.tar'', ''.gz'', ''.bz2'', ''.rar'', ''.7z'',
      ''.iso'', ''.img'', ''.bin'', ''.dat'',
      ''.pyc'', ''.pyo'',
      ''.class'', ''.jar'',
      ''.sqlite'', ''.db'',
      ''.eot'', ''.otf'', ''.ttf'', ''.woff'', ''.woff2'']"

definition DEFAULT_IGNORE_DIRS :: "string list" where
  "DEFAULT_IGNORE_DIRS =
     [''.git'', ''.hg'', ''.svn'',
      ''__pycache__'', ''.pytest_cache'', ''.mypy_cache'',
      ''node_modules'', ''bower_components'',
      ''.vscode'', ''.idea'', ''.project'', ''.settings'',
      ''build'', ''dist'', ''target'', ''out'',
      ''venv'', ''.venv'', ''env'', ''.env'']"

definition BYTES_IN_MB :: nat where
  "BYTES_IN_MB = 1024 * 1024"

section \<open>Glob patterns: \<open>fnmatch.translate\<close>, \<open>re.compile\<close> and \<open>search\<close>\<close>

text \<open>
  The program hands every pattern to the standard library: \<open>fnmatch.translate\<close> turns the
  glob into the regular expression \<open>(?s:R)\Z\<close>, and the filter calls \<open>search\<close> on the
  compiled expression. The expression \<open>R\<close> is modelled by its sequence of items: \<open>*\<close> is
  \<open>.*\<close>, \<open>?\<close> is \<open>.\<close>, a bracket expression is a character class (all its characters
  literal, \<open>x-y\<close> a range, an empty range dropped, a leading \<open>!\<close> the negation), a \<open>[\<close>
  that is never closed is a literal, every other character is escaped and so literal.
\<close>

datatype class_item = Single char | Range char char

datatype glob_tok = Star | AnyChar | Lit char | CharClass bool "class_item list"

type_synonym regex = "glob_tok list"

text \<open>The items of the text between the brackets, read as the regex engine reads the class.\<close>

fun class_items :: "string \<Rightarrow> class_item list" where
  "class_items (x # m # y # rest) =
     (if m = CHR ''-'' then (if x \<le> y then Range x y # class_items rest else class_items rest)
      else Single x # class_items (m # y # rest))"
| "class_items (x # rest) = Single x # class_items rest"
| "class_items [] = []"

text \<open>
  The scan for the closing bracket: \<open>j\<close> skips a leading \<open>!\<close>, then a leading \<open>]\<close>, then
  runs to the next \<open>]\<close>. The result is the text between the brackets and the text after the
  closing bracket, or \<open>None\<close> when the bracket is never closed.
\<close>

fun scan_close :: "string \<Rightarrow> string \<Rightarrow> (string \<times> string) option" where
  "scan_close acc [] = None"
| "scan_close acc (c # cs) =
     (if c = CHR '']'' then Some (rev acc, cs) else scan_close (c # acc) cs)"

definition bracket :: "string \<Rightarrow> (string \<times> string) option" where
  "bracket s =
     (let (a1, s1) = (case s of c # cs \<Rightarrow> if c = CHR ''!'' then ([c], cs) else ([], s) | [] \<Rightarrow> ([], s));
          (a2, s2) = (case s1 of c # cs \<Rightarrow> if c = CHR '']'' then ([c], cs) else ([], s1) | [] \<Rightarrow> ([], s1))
      in scan_close (rev (a1 @ a2)) s2)"

definition class_tok :: "string \<Rightarrow> glob_tok" where
  "class_tok stuff =
     (case stuff of
        c # cs \<Rightarrow> if c = CHR ''!'' then CharClass True (class_items cs)
                  else CharClass False (class_items stuff)
      | [] \<Rightarrow> CharClass False [])"

lemma scan_close_length: "scan_close acc s = Some (stuff, rest) \<Longrightarrow> length rest < length s"
  by (induction acc s rule: scan_close.induct) (auto split: if_splits)

lemma bracket_length: "bracket s = Some (stuff, rest) \<Longrightarrow> length rest < Suc (length s)"
  unfolding bracket_def
  by (auto simp: Let_def split: list.splits if_splits prod.splits dest!: scan_close_length)

function translate :: "string \<Rightarrow> regex" where
  "translate [] = []"
| "translate (c # cs) =
     (if c = CHR ''*'' then
        (case translate cs of
           Star # ts \<Rightarrow> Star # ts
         | ts \<Rightarrow> Star # ts)
      else if c = CHR ''?'' then AnyChar # translate cs
      else if c = CHR ''['' then
        (case bracket cs of
           None \<Rightarrow> Lit c # translate cs
         | Some (stuff, rest) \<Rightarrow> class_tok stuff # translate rest)
      else Lit c # translate cs)"
  by pat_completeness auto
termination
  by (relation "measure length") (auto dest: bracket_length)

fun in_class :: "char \<Rightarrow> class_item list \<Rightarrow> bool" where
  "in_class c [] = False"
| "in_class c (Single x # its) = (c = x \<or> in_class c its)"
| "in_class c (Range x y # its) = ((x \<le> c \<and> c \<le> y) \<or> in_class c its)"

text \<open>
  \<open>re_fullmatch r s\<close>: the items of \<open>r\<close> consume the whole of \<open>s\<close>. This is what the
  translated expression matches from a given start position, since it ends in \<open>\Z\<close>.
\<close>

fun re_fullmatch :: "regex \<Rightarrow> string \<Rightarrow> bool" where
  "re_fullmatch [] s = (s = [])"
| "re_fullmatch (Star # ts) [] = re_fullmatch ts []"
| "re_fullmatch (Star # ts) (c # cs) = (re_fullmatch ts (c # cs) \<or> re_fullmatch (Star # ts) cs)"
| "re_fullmatch (AnyChar # ts) [] = False"
| "re_fullmatch (AnyChar # ts) (c # cs) = re_fullmatch ts cs"
| "re_fullmatch (Lit a # ts) [] = False"
| "re_fullmatch (Lit a # ts) (c # cs) = (a = c \<and> re_fullmatch ts cs)"
| "re_fullmatch (CharClass neg its # ts) [] = False"
| "re_fullmatch (CharClass neg its # ts) (c # cs) = (in_class c its \<noteq> neg \<and> re_fullmatch ts cs)"

text \<open>
  \<open>pattern.search(s)\<close>: the engine tries every start position \<open>0..len(s)\<close> and succeeds when
  the expression matches from one of them.
\<close>

definition re_search :: "regex \<Rightarrow> string \<Rightarrow> bool" where
  "re_search r s = list_ex (\<lambda>k. re_fullmatch r (drop k s)) [0..<Suc (length s)]"

text \<open>
  Shell-glob matching of a whole string, as \<open>fnmatch.fnmatchcase(s, pat)\<close> computes it:
  the translated expression must match from position 0.
\<close>

definition fnmatchcase :: "string \<Rightarrow> string \<Rightarrow> bool" where
  "fnmatchcase s pat = re_fullmatch (translate pat) s"

section \<open>Diagnostics\<close>

text \<open>
  Every \<open>print(..., file=sys.stderr)\<close> of the program is one value of \<open>diag\<close>, carrying
  the values the message is formatted from; the wording of the messages is not modelled.
\<close>

datatype diag =
    SkipIgnoredDir string
  | SkipExcluded regex string
  | SkipNotIncluded string
  | SkipBinary string
  | WarnBinaryIncluded string
  | WarnPathConflict string
  | ErrorNotDirectory string
  | WarnNoGit string
  | DebugInclude string regex
  | DebugExclude string regex
  | SkipTooLarge nat string
  | SkipSizeError string
  | SkipSampleError string
  | Including string
  | ErrorReading string
  | OutputWritten string
  | ErrorWriting string

section \<open>The file filter\<close>

text \<open>
  \<open>file_content_sample.count(b'\\x00') > len(file_content_sample) * 0.1\<close> compares an
  integer with a float. For a sample of fewer than \<open>2^53\<close> bytes the product is the double
  nearest to a tenth of the length, which is the integer itself when the length is a multiple
  of ten; so the comparison holds exactly when ten times the count exceeds the length.
  A sample without \<open>count\<close> (\<open>None\<close>) raises \<open>AttributeError\<close>, which is swallowed.
\<close>

definition is_likely_binary_file :: "string \<Rightarrow> string option \<Rightarrow> bool" where
  "is_likely_binary_file filepath file_content_sample =
     (if lower (splitext_ext filepath) \<in> set DEFAULT_BINARY_EXTENSIONS then True
      else (case file_content_sample of
              None \<Rightarrow> False
            | Some bs \<Rightarrow> length bs < 10 * count_list bs NUL))"

text \<open>Python's truth value of the sample: \<open>None\<close> and \<open>b''\<close> are false.\<close>

definition truthy :: "string option \<Rightarrow> bool" where
  "truthy s = (case s of None \<Rightarrow> False | Some bs \<Rightarrow> bs \<noteq> [])"

definition should_process_file ::
  "string \<Rightarrow> regex list \<Rightarrow> regex list \<Rightarrow> string set \<Rightarrow> bool \<Rightarrow> string option \<Rightarrow> bool
     \<Rightarrow> bool \<times> diag list" where
  "should_process_file filepath_relative_to_repo include_regexes exclude_regexes ignore_dirs_set
       is_binary_check file_content_sample verbose =
     (if list_ex (\<lambda>part. part \<in> ignore_dirs_set) (split_on os_sep filepath_relative_to_repo)
      then (False, if verbose then [SkipIgnoredDir filepath_relative_to_repo] else [])
      else
        (case find (\<lambda>pattern. re_search pattern filepath_relative_to_repo) exclude_regexes of
           Some pattern \<Rightarrow>
             (False, if verbose then [SkipExcluded pattern filepath_relative_to_repo] else [])
         | None \<Rightarrow>
             if include_regexes \<noteq> []
                \<and> \<not> list_ex (\<lambda>pattern. re_search pattern filepath_relative_to_repo) include_regexes
             then (False, if verbose then [SkipNotIncluded filepath_relative_to_repo] else [])
             else if is_binary_check \<and> truthy file_content_sample
                     \<and> is_likely_binary_file filepath_relative_to_repo file_content_sample
             then
               (let is_explicitly_included =
                      (include_regexes \<noteq> []
                       \<and> list_ex (\<lambda>pattern. re_search pattern filepath_relative_to_repo)
                             include_regexes)
                in if \<not> is_explicitly_included
                   then (False, if verbose then [SkipBinary filepath_relative_to_repo] else [])
                   else (True, if verbose then [WarnBinaryIncluded filepath_relative_to_repo]
                               else []))
             else (True, [])))"

section \<open>The tree renderer\<close>

text \<open>
  The nested dictionaries of \<open>generate_tree_display\<close>: a file is \<open>None\<close>, a directory a
  dictionary. A dictionary is an association list in insertion order, which is the order
  \<open>items()\<close> yields and the order the stable sort keeps among equal keys.
\<close>

datatype node = FileNode | DirNode "(string \<times> node) list"

text \<open>\<open>d[k] = v\<close>: an existing key keeps its position, a new key goes last.\<close>

fun dict_set :: "string \<Rightarrow> node \<Rightarrow> (string \<times> node) list \<Rightarrow> (string \<times> node) list" where
  "dict_set k v [] = [(k, v)]"
| "dict_set k v ((k', v') # kvs) =
     (if k = k' then (k, v) # kvs else (k', v') # dict_set k v kvs)"

text \<open>
  The inner loop over the parts of one path. \<open>setdefault\<close> on a name that is already a file
  returns \<open>None\<close>; the code then warns and continues in a fresh dictionary that is not
  attached to the structure, so the rest of the path leaves no trace.
\<close>

fun insert_path ::
  "string list \<Rightarrow> (string \<times> node) list \<Rightarrow> (string \<times> node) list \<times> diag list" where
  "insert_path [] current_level = (current_level, [])"
| "insert_path [part] current_level = (dict_set part FileNode current_level, [])"
| "insert_path (part # rest) current_level =
     (case map_of current_level part of
        None \<Rightarrow>
          (let (sub, ws) = insert_path rest []
           in (dict_set part (DirNode sub) current_level, ws))
      | Some (DirNode d) \<Rightarrow>
          (let (sub, ws) = insert_path rest d
           in (dict_set part (DirNode sub) current_level, ws))
      | Some FileNode \<Rightarrow>
          (current_level, WarnPathConflict part # snd (insert_path rest [])))"

fun build_structure ::
  "string list \<Rightarrow> (string \<times> node) list \<times> diag list \<Rightarrow> (string \<times> node) list \<times> diag list" where
  "build_structure [] acc = acc"
| "build_structure (path_str # paths) (root_structure, ws) =
     (let (root', ws') = insert_path (split_on os_sep path_str) root_structure
      in build_structure paths (root', ws @ ws'))"

definition connector_last :: string where
  "connector_last = [CHR 0xE2, CHR 0x94, CHR 0x94, CHR 0xE2, CHR 0x94, CHR 0x80,
                     CHR 0xE2, CHR 0x94, CHR 0x80, CHR '' '']"

definition connector_mid :: string where
  "connector_mid = [CHR 0xE2, CHR 0x94, CHR 0x9C, CHR 0xE2, CHR 0x94, CHR 0x80,
                    CHR 0xE2, CHR 0x94, CHR 0x80, CHR '' '']"

definition prefix_last :: string where
  "prefix_last = ''    ''"

definition prefix_mid :: string where
  "prefix_mid = [CHR 0xE2, CHR 0x94, CHR 0x82, CHR '' '', CHR '' '', CHR '' '']"

text \<open>\<open>sorted(node.items(), key=lambda item: item[0].lower())\<close>: a stable sort.\<close>

definition sorted_items :: "(string \<times> node) list \<Rightarrow> (string \<times> node) list" where
  "sorted_items nd = sort_key (\<lambda>item. lower (fst item)) nd"

lemma size_list_insort_key:
  "size_list f (insort_key k x xs) = Suc (f x + size_list f xs)"
  by (induction xs) auto

lemma size_list_sorted_items:
  "size_list f (sorted_items nd) = size_list f nd"
  unfolding sorted_items_def
  by (induction nd) (auto simp: size_list_insort_key)

text \<open>
  \<open>_build_tree_lines_recursive(node, current_prefix)\<close>; \<open>emit_items\<close> is its loop
  over \<open>enumerate(items)\<close>, the entry being the last one when nothing follows it.
\<close>

function build_tree_lines :: "(string \<times> node) list \<Rightarrow> string \<Rightarrow> string list"
  and emit_items :: "(string \<times> node) list \<Rightarrow> string \<Rightarrow> string list" where
  "build_tree_lines nd current_prefix = emit_items (sorted_items nd) current_prefix"
| "emit_items [] current_prefix = []"
| "emit_items ((name, child_node) # items) current_prefix =
     (let is_last_entry_in_level = (items = []);
          connector = (if is_last_entry_in_level then connector_last else connector_mid)
      in (current_prefix @ connector @ name)
         # (case child_node of
              DirNode d \<Rightarrow>
                build_tree_lines d
                  (current_prefix @ (if is_last_entry_in_level then prefix_last else prefix_mid))
            | FileNode \<Rightarrow> [])
         @ emit_items items current_prefix)"
  by pat_completeness auto
termination
proof (relation "measure (\<lambda>x. case x of
                     Inl (nd, _) \<Rightarrow> 2 * size_list (size_prod (\<lambda>_. 0) size) nd + 1
                   | Inr (items, _) \<Rightarrow> 2 * size_list (size_prod (\<lambda>_. 0) size) items)")
  show "wf (measure (\<lambda>x. case x of
                     Inl (nd, _) \<Rightarrow> 2 * size_list (size_prod (\<lambda>_. 0) size) nd + 1
                   | Inr (items, _) \<Rightarrow> 2 * size_list (size_prod (\<lambda>_. 0) size) (items :: (string \<times> node) list)))"
    by simp
qed (auto simp: size_list_sorted_items)

text \<open>
  \<open>generate_tree_display(filepaths, repo_name)\<close>. \<open>sorted(list(set(filepaths)))\<close> is the
  sorted list of the distinct paths. The result is the text and the warnings printed.
\<close>

definition tree_title :: "string \<Rightarrow> string" where
  "tree_title repo_name = ''Repository Structure ('' @ repo_name @ ''):''"

definition generate_tree_display :: "string list \<Rightarrow> string \<Rightarrow> string \<times> diag list" where
  "generate_tree_display filepaths repo_name =
     (if filepaths = []
      then (tree_title repo_name @ [NL] @ ''(No files included)'' @ [NL] @ ''---'' @ [NL], [])
      else
        (let (root_structure, ws) = build_structure (sort (remdups filepaths)) ([], []);
             tree_lines = tree_title repo_name # build_tree_lines root_structure []
         in (join [NL] tree_lines @ [NL] @ ''---'' @ [NL], ws)))"

section \<open>The file system and the traversal\<close>

text \<open>
  What the program observes of a file: the result of \<open>os.path.getsize\<close> (\<open>None\<close> when
  it raises \<open>OSError\<close>), of reading the first 1024 bytes in binary mode (\<open>None\<close> when it
  raises \<open>IOError\<close>) and of reading the whole file as text, decoded as UTF-8 with invalid
  sequences dropped (\<open>None\<close> when it raises). A directory lists its files and its
  subdirectories in the order \<open>os.walk\<close> reports them.
\<close>

record file_entry =
  fname :: string
  getsize :: "nat option"
  read_sample :: "string option"
  read_text :: "string option"

datatype dirnode = Dir (dname: string) (dfiles: "file_entry list") (dsubdirs: "dirnode list")

text \<open>
  \<open>os.walk(abs_repo_path, topdown=True)\<close> with the pruning \<open>dirs[:] = [...]\<close>, flattened to
  the files in the order the two loops visit them, each with its \<open>relative_filepath\<close>: the
  names of the directories from the root down and the file name, joined by the separator.
\<close>

fun walk :: "string set \<Rightarrow> string list \<Rightarrow> dirnode \<Rightarrow> (string \<times> file_entry) list" where
  "walk current_ignore_dirs rel (Dir name files dirs) =
     map (\<lambda>f. (join [os_sep] (rel @ [fname f]), f)) files
     @ concat (map (\<lambda>d. walk current_ignore_dirs (rel @ [dname d]) d)
                   (filter (\<lambda>d. dname d \<notin> current_ignore_dirs) dirs))"

record ingest_acc =
  all_content_parts :: "string list"
  included_relative_paths :: "string list"
  diags :: "diag list"

definition content_part :: "string \<Rightarrow> string \<Rightarrow> string" where
  "content_part relative_filepath content =
     ''--- '' @ relative_filepath @ '' ---'' @ [NL] @ content @ [NL]"

text \<open>
  The body of the loop over the files. The size limit is a float; the product with
  \<open>BYTES_IN_MB\<close>, a power of two, is exact, and Python compares an integer with a float
  exactly, so the limit is modelled as a rational number.
\<close>

definition process_entry ::
  "regex list \<Rightarrow> regex list \<Rightarrow> string set \<Rightarrow> rat \<Rightarrow> bool \<Rightarrow> ingest_acc
     \<Rightarrow> string \<times> file_entry \<Rightarrow> ingest_acc" where
  "process_entry compiled_include_regexes compiled_exclude_regexes current_ignore_dirs
       max_file_size_bytes verbose acc entry =
     (let relative_filepath = fst entry; f = snd entry
      in case getsize f of
           None \<Rightarrow>
             acc\<lparr>diags := diags acc @ (if verbose then [SkipSizeError relative_filepath] else [])\<rparr>
         | Some file_size \<Rightarrow>
             if max_file_size_bytes < of_nat file_size
             then acc\<lparr>diags := diags acc
                        @ (if verbose then [SkipTooLarge file_size relative_filepath] else [])\<rparr>
             else
               (case read_sample f of
                  None \<Rightarrow>
                    acc\<lparr>diags := diags acc
                          @ (if verbose then [SkipSampleError relative_filepath] else [])\<rparr>
                | Some file_content_sample_for_check \<Rightarrow>
                    (let (ok, ds) =
                           should_process_file relative_filepath compiled_include_regexes
                             compiled_exclude_regexes current_ignore_dirs True
                             (Some file_content_sample_for_check) verbose
                     in if ok
                        then (case read_text f of
                                Some content \<Rightarrow>
                                  acc\<lparr>all_content_parts :=
                                        all_content_parts acc
                                        @ [content_part relative_filepath content],
                                      included_relative_paths :=
                                        included_relative_paths acc @ [relative_filepath],
                                      diags := diags acc @ ds
                                        @ (if verbose then [Including relative_filepath] else [])\<rparr>
                              | None \<Rightarrow>
                                  acc\<lparr>diags := diags acc @ ds
                                        @ (if verbose then [ErrorReading relative_filepath]
                                           else [])\<rparr>)
                        else acc\<lparr>diags := diags acc @ ds\<rparr>)))"

text \<open>The two nested loops of \<open>ingest_repo\<close> over \<open>os.walk\<close> and over \<open>files\<close>.\<close>

definition traverse ::
  "regex list \<Rightarrow> regex list \<Rightarrow> string set \<Rightarrow> rat \<Rightarrow> bool \<Rightarrow> ingest_acc \<Rightarrow> dirnode
     \<Rightarrow> ingest_acc" where
  "traverse compiled_include_regexes compiled_exclude_regexes current_ignore_dirs
       max_file_size_bytes verbose acc root_dir =
     foldl (process_entry compiled_include_regexes compiled_exclude_regexes
              current_ignore_dirs max_file_size_bytes verbose)
       acc (walk current_ignore_dirs [] root_dir)"

section \<open>\<open>ingest_repo\<close> and \<open>main\<close>\<close>

text \<open>
  The world outside the program: \<open>lookup_dir p\<close> is the directory at \<open>p\<close>, named by
  \<open>os.path.basename(os.path.abspath(p))\<close>, or \<open>None\<close> when \<open>os.path.isdir(p)\<close> is false;
  \<open>can_write p\<close> tells whether opening and writing the file \<open>p\<close> succeeds.
\<close>

record world =
  lookup_dir :: "string \<Rightarrow> dirnode option"
  can_write :: "string \<Rightarrow> bool"

record args =
  repo_path :: string
  include_patterns :: "string list option"
  exclude_patterns :: "string list option"
  output_file :: "string option"
  max_file_size_mb :: rat
  verbose :: bool
  no_git_check :: bool

text \<open>
  What a run leaves behind: the text on standard output, the diagnostics on standard error,
  and the file written (its path and content), if any.
\<close>

record outcome =
  stdout :: string
  stderr :: "diag list"
  written :: "(string \<times> string) option"

text \<open>
  The two compilation loops. \<open>re.compile\<close> accepts every expression that
  \<open>fnmatch.translate\<close> builds, so the handlers of \<open>re.error\<close>, which call \<open>sys.exit(1)\<close>,
  are not entered.
\<close>

definition compile_patterns :: "string list option \<Rightarrow> regex list" where
  "compile_patterns patterns = (case patterns of None \<Rightarrow> [] | Some ps \<Rightarrow> map translate ps)"

definition pattern_list :: "string list option \<Rightarrow> string list" where
  "pattern_list patterns = (case patterns of None \<Rightarrow> [] | Some ps \<Rightarrow> ps)"

definition ingest_repo :: "world \<Rightarrow> args \<Rightarrow> outcome" where
  "ingest_repo w a =
     (case lookup_dir w (repo_path a) of
        None \<Rightarrow> \<lparr>stdout = [], stderr = [ErrorNotDirectory (repo_path a)], written = None\<rparr>
      | Some root_dir \<Rightarrow>
          (let repo_base_name = dname root_dir;
               d0 = (if \<not> no_git_check a \<and> ''.git'' \<notin> set (map dname (dsubdirs root_dir))
                     then [WarnNoGit repo_base_name] else []);
               compiled_include_regexes = compile_patterns (include_patterns a);
               d1 = (if verbose a
                     then map (\<lambda>p_str. DebugInclude p_str (translate p_str))
                            (pattern_list (include_patterns a))
                     else []);
               compiled_exclude_regexes = compile_patterns (exclude_patterns a);
               d2 = (if verbose a
                     then map (\<lambda>p_str. DebugExclude p_str (translate p_str))
                            (pattern_list (exclude_patterns a))
                     else []);
               current_ignore_dirs = set DEFAULT_IGNORE_DIRS;
               max_file_size_bytes = max_file_size_mb a * of_nat BYTES_IN_MB;
               acc = traverse compiled_include_regexes compiled_exclude_regexes
                       current_ignore_dirs max_file_size_bytes (verbose a)
                       \<lparr>all_content_parts = [], included_relative_paths = [],
                        diags = d0 @ d1 @ d2\<rparr>
                       root_dir;
               (tree_header, ws) = generate_tree_display (included_relative_paths acc) repo_base_name;
               final_output = tree_header @ join [NL] (all_content_parts acc)
           in case output_file a of
                None \<Rightarrow> \<lparr>stdout = final_output, stderr = diags acc @ ws, written = None\<rparr>
              | Some path \<Rightarrow>
                  if path = []
                  then \<lparr>stdout = final_output, stderr = diags acc @ ws, written = None\<rparr>
                  else if can_write w path
                  then \<lparr>stdout = [], stderr = diags acc @ ws @ [OutputWritten path],
                        written = Some (path, final_output)\<rparr>
                  else \<lparr>stdout = [], stderr = diags acc @ ws @ [ErrorWriting path],
                        written = None\<rparr>))"

text \<open>
  \<open>main\<close> calls \<open>ingest_repo\<close> and falls off the end of the script: whenever
  \<open>ingest_repo\<close> returns, the exit status of the process is 0.
\<close>

definition main :: "world \<Rightarrow> args \<Rightarrow> outcome \<times> nat" where
  "main w a = (ingest_repo w a, 0)"

section \<open>Definitions for the statements\<close>

text \<open>
  The lines one entry of a level contributes to the tree: its own line, then the lines of
  its children when it is a directory.
\<close>

definition entry_block :: "string \<Rightarrow> bool \<Rightarrow> string \<times> node \<Rightarrow> string list" where
  "entry_block current_prefix is_last item =
     (current_prefix @ (if is_last then connector_last else connector_mid) @ fst item)
     # (case snd item of
          DirNode d \<Rightarrow>
            build_tree_lines d (current_prefix @ (if is_last then prefix_last else prefix_mid))
        | FileNode \<Rightarrow> [])"

text \<open>
  What the loop body does with one file, apart from the diagnostics: the path and the text
  of the file when it is accepted, \<open>None\<close> when it is skipped. \<open>accepted_files\<close> are the
  accepted files of a traversal, in the order of the walk.
\<close>

definition accepted_record ::
  "regex list \<Rightarrow> regex list \<Rightarrow> string set \<Rightarrow> rat \<Rightarrow> string \<times> file_entry
     \<Rightarrow> (string \<times> string) option" where
  "accepted_record inc exc ign max_file_size_bytes entry =
     (case getsize (snd entry) of
        None \<Rightarrow> None
      | Some file_size \<Rightarrow>
          if max_file_size_bytes < of_nat file_size then None
          else (case read_sample (snd entry) of
                  None \<Rightarrow> None
                | Some smp \<Rightarrow>
                    if fst (should_process_file (fst entry) inc exc ign True (Some smp) False)
                    then (case read_text (snd entry) of
                            None \<Rightarrow> None
                          | Some content \<Rightarrow> Some (fst entry, content))
                    else None))"

definition accepted_files ::
  "regex list \<Rightarrow> regex list \<Rightarrow> string set \<Rightarrow> rat \<Rightarrow> dirnode \<Rightarrow> (string \<times> string) list" where
  "accepted_files inc exc ign max_file_size_bytes root_dir =
     List.map_filter (accepted_record inc exc ign max_file_size_bytes) (walk ign [] root_dir)"

definition run_accepted :: "args \<Rightarrow> dirnode \<Rightarrow> (string \<times> string) list" where
  "run_accepted a root_dir =
     accepted_files (compile_patterns (include_patterns a)) (compile_patterns (exclude_patterns a))
       (set DEFAULT_IGNORE_DIRS) (max_file_size_mb a * of_nat BYTES_IN_MB) root_dir"

text \<open>The primary output of a run: the file written, or else standard output.\<close>

definition primary_output :: "outcome \<Rightarrow> string" where
  "primary_output out = (case written out of Some (path, text) \<Rightarrow> text | None \<Rightarrow> stdout out)"

text \<open>
  The body of the output as the specification words it, a concatenation of one record per
  accepted file, under its two readings: each record ends with an empty line after the
  line of the content, or the newline that ends the content is the blank line.
\<close>

definition spec_body_blank_line :: "(string \<times> string) list \<Rightarrow> string" where
  "spec_body_blank_line recs =
     concat (map (\<lambda>(p, c). ''--- '' @ p @ '' ---'' @ [NL] @ c @ [NL] @ [NL]) recs)"

definition spec_body_records :: "(string \<times> string) list \<Rightarrow> string" where
  "spec_body_records recs =
     concat (map (\<lambda>(p, c). ''--- '' @ p @ '' ---'' @ [NL] @ c @ [NL]) recs)"

text \<open>Concrete repositories for the examples.\<close>

definition two_file_repo :: dirnode where
  "two_file_repo = Dir ''repo''
     [\<lparr>fname = ''b.py'', getsize = Some 1, read_sample = Some ''y'', read_text = Some ''y''\<rparr>,
      \<lparr>fname = ''a.py'', getsize = Some 1, read_sample = Some ''x'', read_text = Some ''x''\<rparr>]
     []"

definition two_file_world :: world where
  "two_file_world = \<lparr>lookup_dir = (\<lambda>p. Some two_file_repo), can_write = (\<lambda>p. True)\<rparr>"

definition plain_args :: args where
  "plain_args = \<lparr>repo_path = ''repo'', include_patterns = None, exclude_patterns = None,
     output_file = None, max_file_size_mb = 5, verbose = False, no_git_check = True\<rparr>"

definition big_repo :: dirnode where
  "big_repo = Dir ''repo''
     [\<lparr>fname = ''big.py'', getsize = Some 6000000, read_sample = Some ''x'',
       read_text = Some ''x''\<rparr>,
      \<lparr>fname = ''a.py'', getsize = Some 1, read_sample = Some ''y'', read_text = Some ''y''\<rparr>]
     []"

section \<open>Properties of the file filter\<close>

lemma find_None_list_ex: "(find P xs = None) = (\<not> list_ex P xs)"
  by (auto simp add: find_None_iff list_ex_iff)

lemma should_process_file_decision:
  "fst (should_process_file p inc exc ign chk smp v) =
     (\<not> list_ex (\<lambda>part. part \<in> ign) (split_on os_sep p)
      \<and> \<not> list_ex (\<lambda>pattern. re_search pattern p) exc
      \<and> (inc = [] \<or> list_ex (\<lambda>pattern. re_search pattern p) inc)
      \<and> (chk \<and> truthy smp \<and> is_likely_binary_file p smp
           \<longrightarrow> inc \<noteq> [] \<and> list_ex (\<lambda>pattern. re_search pattern p) inc))"
proof (cases "list_ex (\<lambda>part. part \<in> ign) (split_on os_sep p)")
  case True
  then show ?thesis by (simp add: should_process_file_def)
next
  case ni: False
  show ?thesis
  proof (cases "find (\<lambda>pattern. re_search pattern p) exc")
    case (Some pat)
    then have "list_ex (\<lambda>pattern. re_search pattern p) exc"
      using find_None_list_ex [of "\<lambda>pattern. re_search pattern p" exc] by simp
    with ni Some show ?thesis by (simp add: should_process_file_def)
  next
    case None
    then have ne: "\<not> list_ex (\<lambda>pattern. re_search pattern p) exc"
      by (simp add: find_None_list_ex)
    show ?thesis
      using ni None ne by (auto simp add: should_process_file_def Let_def)
  qed
qed

lemma should_process_file_fst_verbose:
  "fst (should_process_file p inc exc ign chk smp v) = fst (should_process_file p inc exc ign chk smp False)"
  by (simp only: should_process_file_decision)

lemma should_process_file_quiet:
  "snd (should_process_file p inc exc ign chk smp False) = []"
  by (simp add: should_process_file_def Let_def split: option.splits)

text \<open>
  C9. The decision of \<open>should_process_file\<close> is the same with \<open>verbose\<close> set and unset, for
  every path, pattern lists, ignore set, binary-check flag and sample; without \<open>verbose\<close>
  the filter prints nothing. The diagnostics are the second component of the result, apart
  from the decision.
\<close>

theorem verbose_never_changes_decision:
  "fst (should_process_file p inc exc ign chk smp True)
     = fst (should_process_file p inc exc ign chk smp False)
   \<and> snd (should_process_file p inc exc ign chk smp False) = []"
  using should_process_file_fst_verbose [of p inc exc ign chk smp True]
  by (simp add: should_process_file_quiet)

text \<open>
  C3. A path that some exclude pattern matches is rejected, whatever the include patterns
  are. The exclude stage comes before the include stage: with \<open>verbose\<close> the one line
  printed names the ignored directory or an exclude pattern that matches, never the
  include stage.
\<close>

theorem exclude_takes_precedence:
  assumes "\<exists>pattern \<in> set exc. re_search pattern p"
  shows "fst (should_process_file p inc exc ign chk smp v) = False
         \<and> (snd (should_process_file p inc exc ign chk smp True) = [SkipIgnoredDir p]
            \<or> (\<exists>pattern \<in> set exc. re_search pattern p
                 \<and> snd (should_process_file p inc exc ign chk smp True)
                     = [SkipExcluded pattern p]))"
proof -
  from assms have ex: "list_ex (\<lambda>pattern. re_search pattern p) exc"
    by (simp add: list_ex_iff)
  then obtain pat where f: "find (\<lambda>pattern. re_search pattern p) exc = Some pat"
    by (cases "find (\<lambda>pattern. re_search pattern p) exc") (auto simp: find_None_list_ex)
  then have m: "pat \<in> set exc" "re_search pat p"
    by (auto simp: find_Some_iff)
  have "fst (should_process_file p inc exc ign chk smp v) = False"
    using ex by (simp add: should_process_file_decision)
  moreover have "snd (should_process_file p inc exc ign chk smp True) = [SkipIgnoredDir p]
     \<or> snd (should_process_file p inc exc ign chk smp True) = [SkipExcluded pat p]"
    using f by (simp add: should_process_file_def)
  ultimately show ?thesis using m by blast
qed

theorem exclude_takes_precedence_witness:
  "fst (should_process_file ''src/a.py'' [translate ''*.py''] [translate ''src/*'']
          (set DEFAULT_IGNORE_DIRS) True (Some ''x = 1'') False) = False
   \<and> re_search (translate ''*.py'') ''src/a.py''
   \<and> re_search (translate ''src/*'') ''src/a.py''"
proof -
  have m: "re_search (translate ''src/*'') ''src/a.py''"
    by (simp add: re_search_def)
  have i: "re_search (translate ''*.py'') ''src/a.py''"
    by (simp add: re_search_def)
  have h: "\<exists>pattern \<in> set [translate ''src/*'']. re_search pattern ''src/a.py''"
    using m by simp
  show ?thesis
    using exclude_takes_precedence [OF h] m i by blast
qed

text \<open>
  C10. With the empty byte string as sample the binary stage is skipped: the decision is
  that of the ignored-directory, exclude and include stages alone. So a file that passes
  them is accepted also when its extension is a binary one and there is no include pattern.
\<close>

theorem empty_sample_skips_binary_stage:
  "fst (should_process_file p inc exc ign chk (Some []) v) =
     (\<not> list_ex (\<lambda>part. part \<in> ign) (split_on os_sep p)
      \<and> \<not> list_ex (\<lambda>pattern. re_search pattern p) exc
      \<and> (inc = [] \<or> list_ex (\<lambda>pattern. re_search pattern p) inc))
   \<and> (lower (splitext_ext p) \<in> set DEFAULT_BINARY_EXTENSIONS
        \<and> \<not> list_ex (\<lambda>part. part \<in> ign) (split_on os_sep p)
        \<and> \<not> list_ex (\<lambda>pattern. re_search pattern p) exc
        \<and> inc = []
      \<longrightarrow> fst (should_process_file p inc exc ign chk (Some []) v))"
  by (simp add: should_process_file_decision truthy_def)

theorem empty_sample_skips_binary_stage_witness:
  "lower (splitext_ext ''empty.zip'') \<in> set DEFAULT_BINARY_EXTENSIONS
   \<and> \<not> list_ex (\<lambda>part. part \<in> set DEFAULT_IGNORE_DIRS) (split_on os_sep ''empty.zip'')
   \<and> fst (should_process_file ''empty.zip'' [] [] (set DEFAULT_IGNORE_DIRS) True (Some []) False)"
proof -
  have e: "lower (splitext_ext ''empty.zip'') \<in> set DEFAULT_BINARY_EXTENSIONS"
    by (simp add: splitext_ext_def rfind_def lower_def lower_char_def os_sep_def
          DEFAULT_BINARY_EXTENSIONS_def)
  have i: "\<not> list_ex (\<lambda>part. part \<in> set DEFAULT_IGNORE_DIRS) (split_on os_sep ''empty.zip'')"
    by (simp add: os_sep_def DEFAULT_IGNORE_DIRS_def)
  show ?thesis
    using e i
      empty_sample_skips_binary_stage
        [where p = "''empty.zip''" and inc = "[]" and exc = "[]"
           and ign = "set DEFAULT_IGNORE_DIRS" and chk = True and v = False]
    by simp
qed

lemma ext_png: "lower (splitext_ext ''img.png'') \<in> set DEFAULT_BINARY_EXTENSIONS"
  by (simp add: splitext_ext_def rfind_def lower_def lower_char_def os_sep_def
        DEFAULT_BINARY_EXTENSIONS_def)

text \<open>
  C2, as stated, fails on a file whose sample is empty: \<open>img.png\<close> has a binary extension,
  passes the first three stages and is matched by no include pattern, and is accepted.
\<close>

theorem binary_extension_empty_sample_accepted:
  "lower (splitext_ext ''img.png'') \<in> set DEFAULT_BINARY_EXTENSIONS
   \<and> fst (should_process_file ''img.png'' [] [] (set DEFAULT_IGNORE_DIRS) True (Some []) False)"
proof -
  have "fst (should_process_file ''img.png'' [] [] (set DEFAULT_IGNORE_DIRS) True (Some []) False)"
    by (simp add: should_process_file_decision truthy_def os_sep_def DEFAULT_IGNORE_DIRS_def)
  then show ?thesis using ext_png by simp
qed

text \<open>
  C2, amended to a non-empty sample. For a file that passes the ignored-directory, exclude and
  include stages, with the binary check enabled: if its extension, lower-cased, is in the
  default binary set, it is accepted exactly when some include pattern matches it; the file
  is classified binary exactly when the extension is in the set or more than a tenth of the
  bytes of the sample are null; and a file with no binary extension and fewer than a tenth
  of null bytes is accepted.
\<close>

theorem binary_stage_with_sample:
  assumes "smp \<noteq> []"
    and "\<not> list_ex (\<lambda>part. part \<in> ign) (split_on os_sep p)"
    and "\<not> list_ex (\<lambda>pattern. re_search pattern p) exc"
    and "inc = [] \<or> list_ex (\<lambda>pattern. re_search pattern p) inc"
  shows "(lower (splitext_ext p) \<in> set DEFAULT_BINARY_EXTENSIONS
            \<longrightarrow> fst (should_process_file p inc exc ign True (Some smp) v)
                  = list_ex (\<lambda>pattern. re_search pattern p) inc)
       \<and> (is_likely_binary_file p (Some smp)
            = (lower (splitext_ext p) \<in> set DEFAULT_BINARY_EXTENSIONS
               \<or> length smp < 10 * count_list smp NUL))
       \<and> (lower (splitext_ext p) \<notin> set DEFAULT_BINARY_EXTENSIONS
            \<and> 10 * count_list smp NUL < length smp
            \<longrightarrow> fst (should_process_file p inc exc ign True (Some smp) v))"
proof -
  have b: "is_likely_binary_file p (Some smp)
            = (lower (splitext_ext p) \<in> set DEFAULT_BINARY_EXTENSIONS
               \<or> length smp < 10 * count_list smp NUL)"
    by (simp add: is_likely_binary_file_def)
  have t: "truthy (Some smp)"
    using assms(1) by (simp add: truthy_def)
  have d: "fst (should_process_file p inc exc ign True (Some smp) v)
            = (is_likely_binary_file p (Some smp)
                 \<longrightarrow> inc \<noteq> [] \<and> list_ex (\<lambda>pattern. re_search pattern p) inc)"
    using assms(2-4) t by (simp add: should_process_file_decision)
  have e: "(inc \<noteq> [] \<and> list_ex (\<lambda>pattern. re_search pattern p) inc)
            = list_ex (\<lambda>pattern. re_search pattern p) inc"
    by auto
  show ?thesis
    unfolding d e using b by auto
qed


theorem binary_stage_with_sample_witness:
  "fst (should_process_file ''img.png'' [translate ''*.png''] [] (set DEFAULT_IGNORE_DIRS) True
          (Some ''x'') False)
   \<and> \<not> fst (should_process_file ''img.png'' [] [] (set DEFAULT_IGNORE_DIRS) True
          (Some ''x'') False)"
proof -
  have i: "\<not> list_ex (\<lambda>part. part \<in> set DEFAULT_IGNORE_DIRS) (split_on os_sep ''img.png'')"
    by (simp add: os_sep_def DEFAULT_IGNORE_DIRS_def)
  have m: "list_ex (\<lambda>pattern. re_search pattern ''img.png'') [translate ''*.png'']"
    by (simp add: re_search_def)
  have s: "''x'' \<noteq> []" by simp
  have x: "\<not> list_ex (\<lambda>pattern. re_search pattern ''img.png'') []" by simp
  have a: "[translate ''*.png''] = [] \<or> list_ex (\<lambda>pattern. re_search pattern ''img.png'') [translate ''*.png'']"
    using m by simp
  have b: "([]::regex list) = [] \<or> list_ex (\<lambda>pattern. re_search pattern ''img.png'') []"
    by simp
  show ?thesis
    using binary_stage_with_sample [OF s i x a, of False]
      binary_stage_with_sample [OF s i x b, of False] ext_png m
    by simp
qed

section \<open>Properties of pattern matching\<close>

text \<open>
  C1 says that a compiled pattern matches a path exactly when the whole path matches the
  glob. The filter calls \<open>search\<close>, which tries every start position, and the translated
  expression is anchored at the end only: the glob \<open>b.py\<close> matches the path \<open>a/b.py\<close>,
  which the whole-string glob match rejects, and the filter accepts the file on that match.
\<close>

theorem search_matches_suffix:
  "re_search (translate ''b.py'') ''a/b.py''
   \<and> \<not> fnmatchcase ''a/b.py'' ''b.py''
   \<and> fst (should_process_file ''a/b.py'' [translate ''b.py''] [] (set DEFAULT_IGNORE_DIRS) True
            (Some ''x'') False)"
proof -
  have m: "re_search (translate ''b.py'') ''a/b.py''"
    by (simp add: re_search_def)
  have n: "\<not> fnmatchcase ''a/b.py'' ''b.py''"
    by (simp add: fnmatchcase_def)
  have e: "lower (splitext_ext ''a/b.py'') \<notin> set DEFAULT_BINARY_EXTENSIONS"
    by (simp add: splitext_ext_def rfind_def lower_def lower_char_def os_sep_def
        DEFAULT_BINARY_EXTENSIONS_def)
  have "fst (should_process_file ''a/b.py'' [translate ''b.py''] [] (set DEFAULT_IGNORE_DIRS) True
            (Some ''x'') False)"
    using m by (simp add: should_process_file_decision os_sep_def DEFAULT_IGNORE_DIRS_def)
  with m n show ?thesis by simp
qed

section \<open>Properties of the exit status\<close>

text \<open>
  C4 says that a root path that is not a directory ends the process with a non-zero status
  and no output. The run prints the error, writes nothing to standard output or to a file,
  and returns: the exit status is 0.
\<close>

theorem missing_root_exits_zero:
  "main \<lparr>lookup_dir = (\<lambda>p. None), can_write = (\<lambda>p. True)\<rparr>
        \<lparr>repo_path = ''missing'', include_patterns = None, exclude_patterns = None,
         output_file = None, max_file_size_mb = 5, verbose = False, no_git_check = False\<rparr>
   = (\<lparr>stdout = [], stderr = [ErrorNotDirectory ''missing''], written = None\<rparr>, 0)"
  by (simp add: main_def ingest_repo_def)

text \<open>
  C5 says that a failed write of the output file ends the process with a non-zero status.
  The run prints the error after the traversal and returns: the exit status is 0.
\<close>

theorem failed_write_exits_zero:
  "main \<lparr>lookup_dir = (\<lambda>p. Some (Dir ''repo''
             [\<lparr>fname = ''a.py'', getsize = Some 5, read_sample = Some ''x = 1'',
               read_text = Some ''x = 1''\<rparr>] [])),
         can_write = (\<lambda>p. False)\<rparr>
        \<lparr>repo_path = ''repo'', include_patterns = None, exclude_patterns = None,
         output_file = Some ''out.txt'', max_file_size_mb = 5, verbose = False,
         no_git_check = True\<rparr>
   = (\<lparr>stdout = [], stderr = [ErrorWriting ''out.txt''], written = None\<rparr>, 0)"
  by (simp add: main_def ingest_repo_def traverse_def process_entry_def compile_patterns_def
        pattern_list_def should_process_file_def truthy_def is_likely_binary_file_def
        splitext_ext_def rfind_def lower_def lower_char_def os_sep_def NUL_def
        DEFAULT_BINARY_EXTENSIONS_def DEFAULT_IGNORE_DIRS_def BYTES_IN_MB_def
        generate_tree_display_def Let_def)

section \<open>Properties of the tree renderer\<close>

lemma emit_items_snoc:
  "emit_items (items @ [item]) pre
     = concat (map (entry_block pre False) items) @ entry_block pre True item"
proof (induction items)
  case Nil
  show ?case by (cases item) (simp add: entry_block_def)
next
  case (Cons x xs)
  then show ?case by (cases x) (simp add: entry_block_def)
qed

lemma build_tree_lines_blocks:
  assumes "nd \<noteq> []"
  shows "build_tree_lines nd pre
           = concat (map (entry_block pre False) (butlast (sorted_items nd)))
             @ entry_block pre True (last (sorted_items nd))"
proof -
  have "length (sorted_items nd) = length nd"
    by (simp add: sorted_items_def)
  then have "sorted_items nd \<noteq> []"
    using assms by auto
  then have "sorted_items nd = butlast (sorted_items nd) @ [last (sorted_items nd)]"
    by simp
  then have "emit_items (sorted_items nd) pre
           = emit_items (butlast (sorted_items nd) @ [last (sorted_items nd)]) pre"
    by simp
  then show ?thesis
    by (simp add: emit_items_snoc)
qed

lemma generate_tree_display_set:
  assumes "set xs = set ys"
  shows "generate_tree_display xs n = generate_tree_display ys n"
proof -
  have e: "(xs = []) = (ys = [])"
    using assms by (metis set_empty)
  have "sort (remdups xs) = sorted_list_of_set (set xs)"
    by (simp add: sorted_list_of_set_sort_remdups)
  also have "\<dots> = sorted_list_of_set (set ys)"
    using assms by simp
  also have "\<dots> = sort (remdups ys)"
    by (simp add: sorted_list_of_set_sort_remdups)
  finally show ?thesis
    using e by (simp add: generate_tree_display_def)
qed

text \<open>
  C7. \<open>generate_tree_display\<close> depends on the list of paths only through its set: two
  lists with the same elements, in any order and with any repetition, give the same text.
  At each level the children are taken in the order of the stable sort by lower-cased name,
  which is a sorted rearrangement of the level, and the level is rendered as the blocks of
  the children in that order, the last one with the closing connector. The empty list gives
  the fixed placeholder.
\<close>

theorem tree_display_function_of_path_set:
  "(set xs = set ys \<longrightarrow> generate_tree_display xs n = generate_tree_display ys n)
   \<and> sorted (map (\<lambda>item. lower (fst item)) (sorted_items nd))
   \<and> mset (sorted_items nd) = mset nd
   \<and> (nd \<noteq> [] \<longrightarrow>
        build_tree_lines nd pre
          = concat (map (entry_block pre False) (butlast (sorted_items nd)))
            @ entry_block pre True (last (sorted_items nd)))
   \<and> generate_tree_display [] n
       = (tree_title n @ [NL] @ ''(No files included)'' @ [NL] @ ''---'' @ [NL], [])"
  using generate_tree_display_set [of xs ys n] build_tree_lines_blocks [of nd pre]
  by (simp add: sorted_items_def generate_tree_display_def)

theorem tree_display_function_of_path_set_witness:
  "generate_tree_display [''b.py'', ''a.py''] ''r''
     = generate_tree_display [''a.py'', ''b.py'', ''a.py''] ''r''
   \<and> build_tree_lines [(''b.py'', FileNode), (''A'', DirNode [(''x.py'', FileNode)])] []
       = [connector_mid @ ''A'', prefix_mid @ connector_last @ ''x.py'', connector_last @ ''b.py'']"
proof -
  have s: "set [''b.py'', ''a.py''] = set [''a.py'', ''b.py'', ''a.py'']"
    by auto
  have n: "[(''b.py'', FileNode), (''A'', DirNode [(''x.py'', FileNode)])] \<noteq> []"
    by simp
  have so: "sorted_items [(''b.py'', FileNode), (''A'', DirNode [(''x.py'', FileNode)])]
            = [(''A'', DirNode [(''x.py'', FileNode)]), (''b.py'', FileNode)]"
    by code_simp
  have so2: "sorted_items [(''x.py'', FileNode)] = [(''x.py'', FileNode)]"
    by (simp add: sorted_items_def)
  show ?thesis
    using tree_display_function_of_path_set
      [of "[''b.py'', ''a.py'']" "[''a.py'', ''b.py'', ''a.py'']" "''r''"
          "[(''b.py'', FileNode), (''A'', DirNode [(''x.py'', FileNode)])]" "[]"]
      s n
    by (simp add: so so2 entry_block_def)
qed


section \<open>Properties of the traversal\<close>

lemma process_entry_accepted:
  "all_content_parts (process_entry inc exc ign m v acc en)
     = all_content_parts acc
       @ (case accepted_record inc exc ign m en of
            None \<Rightarrow> [] | Some (p, c) \<Rightarrow> [content_part p c])
   \<and> included_relative_paths (process_entry inc exc ign m v acc en)
     = included_relative_paths acc
       @ (case accepted_record inc exc ign m en of None \<Rightarrow> [] | Some (p, c) \<Rightarrow> [p])"
proof (cases "getsize (snd en)")
  case None
  then show ?thesis
    by (simp add: process_entry_def accepted_record_def)
next
  case (Some file_size)
  show ?thesis
  proof (cases "m < of_nat file_size")
    case True
    with Some show ?thesis
      by (simp add: process_entry_def accepted_record_def)
  next
    case small: False
    show ?thesis
    proof (cases "read_sample (snd en)")
      case None
      with Some small show ?thesis
        by (simp add: process_entry_def accepted_record_def)
    next
      case smp: (Some smp)
      obtain ok ds where r: "should_process_file (fst en) inc exc ign True (Some smp) v = (ok, ds)"
        by (cases "should_process_file (fst en) inc exc ign True (Some smp) v")
      have "fst (should_process_file (fst en) inc exc ign True (Some smp) False)
              = fst (should_process_file (fst en) inc exc ign True (Some smp) v)"
        by (rule should_process_file_fst_verbose [symmetric])
      with r have q: "fst (should_process_file (fst en) inc exc ign True (Some smp) False) = ok"
        by simp
      show ?thesis
        using Some small smp r q
        by (cases "read_text (snd en)")
          (simp_all add: process_entry_def accepted_record_def Let_def)
    qed
  qed
qed

lemma foldl_process_entry_accepted:
  "all_content_parts (foldl (process_entry inc exc ign m v) acc es)
     = all_content_parts acc
       @ map (\<lambda>(p, c). content_part p c) (List.map_filter (accepted_record inc exc ign m) es)
   \<and> included_relative_paths (foldl (process_entry inc exc ign m v) acc es)
     = included_relative_paths acc
       @ map fst (List.map_filter (accepted_record inc exc ign m) es)"
proof (induction es arbitrary: acc)
  case Nil
  show ?case by (simp add: List.map_filter_simps)
next
  case (Cons en es)
  show ?case
    using Cons.IH [of "process_entry inc exc ign m v acc en"]
      process_entry_accepted [of inc exc ign m v acc en]
    by (auto simp: List.map_filter_simps split: option.splits)
qed

lemma traverse_accepted:
  "all_content_parts (traverse inc exc ign m v acc root_dir)
     = all_content_parts acc @ map (\<lambda>(p, c). content_part p c) (accepted_files inc exc ign m root_dir)
   \<and> included_relative_paths (traverse inc exc ign m v acc root_dir)
     = included_relative_paths acc @ map fst (accepted_files inc exc ign m root_dir)"
  unfolding traverse_def accepted_files_def
  by (rule foldl_process_entry_accepted)

lemma accepted_record_fst:
  "accepted_record inc exc ign m en = Some (p, c) \<Longrightarrow> p = fst en"
  by (auto simp: accepted_record_def split: option.splits if_splits)

lemma accepted_record_too_large:
  "getsize (snd en) = Some n \<Longrightarrow> m < of_nat n \<Longrightarrow> accepted_record inc exc ign m en = None"
  by (simp add: accepted_record_def)

lemma accepted_paths_discovery_order:
  "map fst (List.map_filter (accepted_record inc exc ign m) es)
     = map fst (filter (\<lambda>en. accepted_record inc exc ign m en \<noteq> None) es)"
  by (induction es) (auto simp: List.map_filter_simps dest: accepted_record_fst split: option.splits)

text \<open>
  C8. A file met by the walk whose size exceeds \<open>max_file_size_mb * BYTES_IN_MB\<close> is
  skipped at the size check: the loop body adds nothing but the too-large line (with
  \<open>verbose\<close>), so the filter is not consulted, whatever the include patterns are; and its
  path is not among the included paths of the traversal. Paths of the walk are distinct, as
  they are in a file system.
\<close>

theorem oversized_file_never_accepted:
  assumes "(path, f) \<in> set (walk ign [] root_dir)"
    and "getsize f = Some file_size"
    and "max_mb * of_nat BYTES_IN_MB < of_nat file_size"
    and "distinct (map fst (walk ign [] root_dir))"
  shows "process_entry inc exc ign (max_mb * of_nat BYTES_IN_MB) v acc (path, f)
           = acc\<lparr>diags := diags acc @ (if v then [SkipTooLarge file_size path] else [])\<rparr>
         \<and> path \<notin> set (included_relative_paths
                         (traverse inc exc ign (max_mb * of_nat BYTES_IN_MB) v
                            \<lparr>all_content_parts = [], included_relative_paths = [], diags = d\<rparr>
                            root_dir))"
proof -
  let ?m = "max_mb * of_nat BYTES_IN_MB"
  let ?es = "walk ign [] root_dir"
  have step: "process_entry inc exc ign ?m v acc (path, f)
           = acc\<lparr>diags := diags acc @ (if v then [SkipTooLarge file_size path] else [])\<rparr>"
    using assms(2,3) by (simp add: process_entry_def)
  have none: "accepted_record inc exc ign ?m (path, f) = None"
    using assms(2,3) by (simp add: accepted_record_too_large)
  have "path \<notin> set (map fst (filter (\<lambda>en. accepted_record inc exc ign ?m en \<noteq> None) ?es))"
  proof
    assume "path \<in> set (map fst (filter (\<lambda>en. accepted_record inc exc ign ?m en \<noteq> None) ?es))"
    then obtain en where en: "en \<in> set ?es" "accepted_record inc exc ign ?m en \<noteq> None"
      "fst en = path"
      by auto
    from assms(4) have "inj_on fst (set ?es)"
      by (simp add: distinct_map)
    then have "en = (path, f)"
      using en(1,3) assms(1) unfolding inj_on_def by force
    with en(2) none show False by simp
  qed
  then have "path \<notin> set (included_relative_paths
                         (traverse inc exc ign ?m v
                            \<lparr>all_content_parts = [], included_relative_paths = [], diags = d\<rparr>
                            root_dir))"
    by (simp add: traverse_accepted accepted_files_def accepted_paths_discovery_order)
  with step show ?thesis by simp
qed

theorem oversized_file_never_accepted_witness:
  "included_relative_paths
     (traverse [translate ''*.py''] [] (set DEFAULT_IGNORE_DIRS) (5 * of_nat BYTES_IN_MB) False
        \<lparr>all_content_parts = [], included_relative_paths = [], diags = []\<rparr> big_repo)
   = [''a.py'']
   \<and> ''big.py'' \<notin> set (included_relative_paths
     (traverse [translate ''*.py''] [] (set DEFAULT_IGNORE_DIRS) (5 * of_nat BYTES_IN_MB) False
        \<lparr>all_content_parts = [], included_relative_paths = [], diags = []\<rparr> big_repo))
   \<and> re_search (translate ''*.py'') ''big.py''"
proof -
  let ?f = "\<lparr>fname = ''big.py'', getsize = Some 6000000, read_sample = Some ''x'',
       read_text = Some ''x''\<rparr>"
  have w: "walk (set DEFAULT_IGNORE_DIRS) [] big_repo
            = [(''big.py'', ?f),
               (''a.py'', \<lparr>fname = ''a.py'', getsize = Some 1, read_sample = Some ''y'',
                           read_text = Some ''y''\<rparr>)]"
    by (simp add: big_repo_def)
  have a1: "(''big.py'', ?f) \<in> set (walk (set DEFAULT_IGNORE_DIRS) [] big_repo)"
    by (simp add: w)
  have a2: "getsize ?f = Some 6000000" by simp
  have a3: "(5::rat) * of_nat BYTES_IN_MB < of_nat 6000000"
    by (simp add: BYTES_IN_MB_def)
  have a4: "distinct (map fst (walk (set DEFAULT_IGNORE_DIRS) [] big_repo))"
    by (simp add: w)
  have m1: "re_search (translate ''*.py'') ''big.py''"
    by (simp add: re_search_def)
  have m2: "re_search (translate ''*.py'') ''a.py''"
    by (simp add: re_search_def)
  have e: "lower (splitext_ext ''a.py'') \<notin> set DEFAULT_BINARY_EXTENSIONS"
    by (simp add: splitext_ext_def rfind_def lower_def lower_char_def os_sep_def
        DEFAULT_BINARY_EXTENSIONS_def)
  have i: "\<not> list_ex (\<lambda>part. part \<in> set DEFAULT_IGNORE_DIRS) (split_on os_sep ''a.py'')"
    by (simp add: os_sep_def DEFAULT_IGNORE_DIRS_def)
  have ok: "fst (should_process_file ''a.py'' [translate ''*.py''] [] (set DEFAULT_IGNORE_DIRS) True
              (Some ''y'') False)"
    using m2 i e by (simp add: should_process_file_decision is_likely_binary_file_def NUL_def)
  have p: "included_relative_paths
     (traverse [translate ''*.py''] [] (set DEFAULT_IGNORE_DIRS) (5 * of_nat BYTES_IN_MB) False
        \<lparr>all_content_parts = [], included_relative_paths = [], diags = []\<rparr> big_repo)
   = [''a.py'']"
    using ok a3
    by (simp add: traverse_accepted accepted_files_def w List.map_filter_simps
          accepted_record_def BYTES_IN_MB_def)
  show ?thesis
    using oversized_file_never_accepted [OF a1 a2 a3 a4,
        of "[translate ''*.py'']" "[]" False _ "[]"] p m1
    by simp
qed


section \<open>Properties of the output\<close>

lemma ingest_repo_primary_output:
  assumes "lookup_dir w (repo_path a) = Some root_dir"
    and "case output_file a of None \<Rightarrow> True | Some path \<Rightarrow> path = [] \<or> can_write w path"
  shows "primary_output (ingest_repo w a)
           = fst (generate_tree_display (map fst (run_accepted a root_dir)) (dname root_dir))
             @ join [NL] (map (\<lambda>(p, c). content_part p c) (run_accepted a root_dir))"
  using assms
  by (auto simp add: ingest_repo_def primary_output_def run_accepted_def Let_def traverse_accepted
        split: option.splits prod.splits)

lemma py_accept:
  assumes "p = ''a.py'' \<or> p = ''b.py''"
  shows "fst (should_process_file p [] [] (set DEFAULT_IGNORE_DIRS) True (Some [c]) False) = (c \<noteq> NUL)"
proof -
  have e: "lower (splitext_ext p) \<notin> set DEFAULT_BINARY_EXTENSIONS"
    using assms
    by (auto simp add: splitext_ext_def rfind_def lower_def lower_char_def os_sep_def
        DEFAULT_BINARY_EXTENSIONS_def)
  have i: "\<not> list_ex (\<lambda>part. part \<in> set DEFAULT_IGNORE_DIRS) (split_on os_sep p)"
    using assms by (auto simp add: os_sep_def DEFAULT_IGNORE_DIRS_def)
  show ?thesis
    using e i by (simp add: should_process_file_decision is_likely_binary_file_def truthy_def)
qed

lemma two_file_accepted:
  "run_accepted plain_args two_file_repo = [(''b.py'', ''y''), (''a.py'', ''x'')]"
  by (simp add: run_accepted_def accepted_files_def plain_args_def two_file_repo_def
        compile_patterns_def List.map_filter_simps accepted_record_def BYTES_IN_MB_def
        py_accept NUL_def)

text \<open>
  C6, as stated, fails: the records are joined by a newline, not each followed by a blank
  line. With two accepted files the output is neither the header followed by the records
  each ending in an empty line (nothing follows the last record), nor the header followed
  by the bare records (a newline separates them).
\<close>

theorem last_record_has_no_blank_line:
  "stdout (ingest_repo two_file_world plain_args)
     \<noteq> fst (generate_tree_display [''b.py'', ''a.py''] ''repo'')
         @ spec_body_blank_line [(''b.py'', ''y''), (''a.py'', ''x'')]
   \<and> stdout (ingest_repo two_file_world plain_args)
     \<noteq> fst (generate_tree_display [''b.py'', ''a.py''] ''repo'')
         @ spec_body_records [(''b.py'', ''y''), (''a.py'', ''x'')]"
proof -
  have l: "lookup_dir two_file_world (repo_path plain_args) = Some two_file_repo"
    by (simp add: two_file_world_def)
  have o: "case output_file plain_args of None \<Rightarrow> True
           | Some path \<Rightarrow> path = [] \<or> can_write two_file_world path"
    by (simp add: plain_args_def)
  have d: "dname two_file_repo = ''repo''"
    by (simp add: two_file_repo_def)
  have w: "written (ingest_repo two_file_world plain_args) = None"
    by (simp add: ingest_repo_def two_file_world_def plain_args_def Let_def split: prod.splits)
  have "stdout (ingest_repo two_file_world plain_args)
          = fst (generate_tree_display [''b.py'', ''a.py''] ''repo'')
            @ join [NL] [content_part ''b.py'' ''y'', content_part ''a.py'' ''x'']"
    using ingest_repo_primary_output [OF l o] w d
    by (simp add: primary_output_def two_file_accepted)
  then show ?thesis
    by (simp add: spec_body_blank_line_def spec_body_records_def content_part_def NL_def)
qed

text \<open>
  C6, amended. When the root is a directory and the output can be delivered, the primary
  output is the tree header followed by the records of the accepted files joined by one
  newline, each record being the line \<open>--- path ---\<close>, the content and a newline. The
  records are in the order of the walk: the accepted paths are the paths of the walk that
  pass, in that order.
\<close>

theorem output_is_header_then_joined_records:
  assumes "lookup_dir w (repo_path a) = Some root_dir"
    and "case output_file a of None \<Rightarrow> True | Some path \<Rightarrow> path = [] \<or> can_write w path"
  shows "primary_output (ingest_repo w a)
           = fst (generate_tree_display (map fst (run_accepted a root_dir)) (dname root_dir))
             @ join [NL]
                 (map (\<lambda>(p, c). ''--- '' @ p @ '' ---'' @ [NL] @ c @ [NL]) (run_accepted a root_dir))
         \<and> map fst (run_accepted a root_dir)
           = map fst (filter (\<lambda>en. accepted_record (compile_patterns (include_patterns a))
                                     (compile_patterns (exclude_patterns a)) (set DEFAULT_IGNORE_DIRS)
                                     (max_file_size_mb a * of_nat BYTES_IN_MB) en \<noteq> None)
                        (walk (set DEFAULT_IGNORE_DIRS) [] root_dir))"
proof -
  have c: "(\<lambda>(p, c). content_part p c) = (\<lambda>(p, c). ''--- '' @ p @ '' ---'' @ [NL] @ c @ [NL])"
    by (simp add: content_part_def fun_eq_iff)
  show ?thesis
    using ingest_repo_primary_output [OF assms]
    by (simp add: c run_accepted_def accepted_files_def accepted_paths_discovery_order)
qed

theorem output_is_header_then_joined_records_witness:
  "primary_output (ingest_repo two_file_world plain_args)
     = fst (generate_tree_display [''b.py'', ''a.py''] ''repo'')
       @ ''--- b.py ---'' @ [NL] @ ''y'' @ [NL] @ [NL] @ ''--- a.py ---'' @ [NL] @ ''x'' @ [NL]"
proof -
  have l: "lookup_dir two_file_world (repo_path plain_args) = Some two_file_repo"
    by (simp add: two_file_world_def)
  have o: "case output_file plain_args of None \<Rightarrow> True
           | Some path \<Rightarrow> path = [] \<or> can_write two_file_world path"
    by (simp add: plain_args_def)
  have d: "dname two_file_repo = ''repo''"
    by (simp add: two_file_repo_def)
  show ?thesis
    using output_is_header_then_joined_records [OF l o] d
    by (simp add: two_file_accepted)
qed


end
